theory Spec2Isabelle
  imports Complex_Main "HOL-Library.Word" "HOL-Library.Multiset"
begin

section \<open>Values, documents and the two stores\<close>

text \<open>
  The wrapper stores Python dictionaries in a MongoDB collection and moves every numpy array
  found in them into GridFS. A value is what such a dictionary can hold. Numpy arrays are
  carried as element type, shape and raw buffer; numpy scalars are told apart from Python
  numbers because \<open>_stashNPArrays\<close> converts them.
\<close>

type_synonym bytes = "8 word list"

datatype ndarray = NDArr (dtype: string) (shape: "nat list") (buffer: bytes)

datatype pyvalue =
    PyNone
  | PyBool bool
  | PyInt int
  | PyFloat real
  | PyStr string
  | DateTime nat
  | is_ObjectId: ObjectId nat
  | is_ndarray: NDArray (the_ndarray: ndarray)
  | is_np_integer: NpInteger (int_of: int)
  | is_np_inexact: NpInexact (float_of: real)
  | PyList "pyvalue list"
  | is_dict: PyDict (the_dict: "(string \<times> pyvalue) list")

text \<open>
  A dictionary is an association list in iteration order (the order of \<open>document.items()\<close>);
  a Python dictionary has every key once.
\<close>

type_synonym doc = "(string \<times> pyvalue) list"

definition dict_get :: "doc \<Rightarrow> string \<Rightarrow> pyvalue option" where
  "dict_get d k = map_of d k"

text \<open>\<open>document[key] = value\<close>: an existing key keeps its place, a new key is added.\<close>

fun dict_set :: "doc \<Rightarrow> string \<Rightarrow> pyvalue \<Rightarrow> doc" where
  "dict_set [] k v = [(k, v)]"
| "dict_set ((k', v') # d) k v =
     (if k' = k then (k, v) # d else (k', v') # dict_set d k v)"

text \<open>
  The exceptions the modelled code can raise: \<open>KeyError\<close>, \<open>TypeError\<close> and
  \<open>AttributeError\<close> from Python itself, \<open>NoFile\<close> from \<open>gridfs\<close> when a file id is
  unknown, the exceptions of
  \<open>pickle.loads\<close> on bytes that are no pickle (\<open>UnpicklingError\<close>, \<open>EOFError\<close> on
  truncated input), and those of the driver when it cannot encode a document for the
  collection (\<open>InvalidDocument\<close> for a value BSON has no encoding of, such as an
  ndarray; \<open>OverflowError\<close> for an integer beyond eight bytes). \<open>NotFoundError\<close> is the
  error the specification asks of \<open>delete\<close>; no line of the source raises it, and it is
  here only so that the statement about \<open>delete\<close> can name it.
\<close>

datatype error =
    KeyError | TypeError | AttributeError | NoFile | UnpicklingError | EOFError | InvalidDocument
  | OverflowError | NotFoundError

text \<open>
  The libraries the wrapper calls but does not contain, as parameters:
  \<open>pickle.dumps(_, protocol=2)\<close>; \<open>pickle.loads\<close>, which returns an object or raises;
  the MD5 hex digest (of \<open>hashlib\<close>, and the one GridFS records for each file: the same
  function of the bytes); the collection's query matching; the driver's encoding of a
  document for the collection, as the exception it raises, if any (\<open>bson_error\<close>); and
  what a loop over an ndarray of one or more dimensions visits (\<open>ndarray_items\<close>).
\<close>

record env =
  pickle_dumps :: "ndarray \<Rightarrow> bytes"
  pickle_loads :: "bytes \<Rightarrow> error + pyvalue"
  md5_hex :: "bytes \<Rightarrow> string"
  matches :: "pyvalue \<Rightarrow> doc \<Rightarrow> bool"
  bson_error :: "doc \<Rightarrow> error option"
  ndarray_items :: "ndarray \<Rightarrow> pyvalue list"

text \<open>The calls made on the two stores, in the order they are made.\<close>

datatype event =
    FsPut nat
  | FsDelete pyvalue
  | CollectionSave pyvalue
  | CollectionRemove pyvalue

text \<open>
  The state a \<open>MongoWrapper\<close> works on: the GridFS files by id, the collection's documents,
  the ObjectId generator, the clock read by \<open>datetime.datetime.now()\<close> (the \<open>n\<close>-th reading
  is \<open>clock n\<close>), the two instance attributes \<open>temp_oldNpObjectIDs\<close> and
  \<open>temp_newNpObjectIds\<close>, and the history of store calls.
\<close>

record world =
  fs_files :: "nat \<rightharpoonup> bytes"
  collection :: "doc list"
  next_oid :: nat
  clock :: "nat \<Rightarrow> nat"
  ticks :: nat
  temp_oldNpObjectIDs :: pyvalue
  temp_newNpObjectIds :: "pyvalue list"
  history :: "event list"

subsection \<open>GridFS\<close>

text \<open>\<open>fs.get(id)\<close>: files are stored under ObjectIds only, any other id finds no file.\<close>

fun fs_get :: "world \<Rightarrow> pyvalue \<Rightarrow> bytes option" where
  "fs_get w (ObjectId n) = fs_files w n"
| "fs_get w _ = None"

definition fs_put :: "bytes \<Rightarrow> world \<Rightarrow> pyvalue \<times> world" where
  "fs_put b w =
     (ObjectId (next_oid w),
      w\<lparr>fs_files := (fs_files w)(next_oid w \<mapsto> b),
        next_oid := Suc (next_oid w),
        history := history w @ [FsPut (next_oid w)]\<rparr>)"

fun fs_remove :: "pyvalue \<Rightarrow> (nat \<rightharpoonup> bytes) \<Rightarrow> (nat \<rightharpoonup> bytes)" where
  "fs_remove (ObjectId n) files = files(n := None)"
| "fs_remove _ files = files"

definition fs_delete :: "pyvalue \<Rightarrow> world \<Rightarrow> world" where
  "fs_delete i w =
     w\<lparr>fs_files := fs_remove i (fs_files w), history := history w @ [FsDelete i]\<rparr>"

subsection \<open>The collection\<close>

text \<open>
  \<open>collection.save(doc)\<close> of pymongo: a document without \<open>_id\<close> gets a new ObjectId,
  which is also written into the document passed in, and is inserted; a document with
  \<open>_id\<close> replaces the stored document of that \<open>_id\<close>, or is added when there is none.
  Either way the driver encodes the document first, and the call raises, with the
  collection as it was, when the driver cannot.
\<close>

fun upsert :: "pyvalue \<Rightarrow> doc \<Rightarrow> doc list \<Rightarrow> doc list" where
  "upsert i d [] = [d]"
| "upsert i d (x # xs) =
     (if dict_get x ''_id'' = Some i then d # xs else x # upsert i d xs)"

definition collection_save :: "env \<Rightarrow> doc \<Rightarrow> world \<Rightarrow> (error + pyvalue \<times> doc) \<times> world" where
  "collection_save e d w =
     (case dict_get d ''_id'' of
        None \<Rightarrow>
          (let i = ObjectId (next_oid w);
               d' = dict_set d ''_id'' i;
               w' = w\<lparr>next_oid := Suc (next_oid w)\<rparr>
           in case bson_error e d' of
                Some x \<Rightarrow> (Inl x, w')
              | None \<Rightarrow>
                  (Inr (i, d'),
                   w'\<lparr>collection := collection w @ [d'],
                      history := history w @ [CollectionSave i]\<rparr>))
      | Some i \<Rightarrow>
          (case bson_error e d of
             Some x \<Rightarrow> (Inl x, w)
           | None \<Rightarrow>
               (Inr (i, d),
                w\<lparr>collection := upsert i d (collection w),
                  history := history w @ [CollectionSave i]\<rparr>)))"

definition collection_find :: "env \<Rightarrow> pyvalue \<Rightarrow> world \<Rightarrow> doc list" where
  "collection_find e query w = filter (matches e query) (collection w)"

definition collection_find_one :: "env \<Rightarrow> pyvalue \<Rightarrow> world \<Rightarrow> doc option" where
  "collection_find_one e query w =
     (case collection_find e query w of [] \<Rightarrow> None | d # _ \<Rightarrow> Some d)"

text \<open>
  \<open>collection.remove(spec_or_id)\<close>: a dictionary is the query itself, \<open>None\<close> removes every
  document, anything else is the \<open>_id\<close> to remove.
\<close>

definition collection_remove :: "env \<Rightarrow> pyvalue \<Rightarrow> world \<Rightarrow> world" where
  "collection_remove e spec_or_id w =
     w\<lparr>collection :=
         (case spec_or_id of
            PyNone \<Rightarrow> []
          | PyDict spec \<Rightarrow> filter (\<lambda>d. \<not> matches e (PyDict spec) d) (collection w)
          | i \<Rightarrow> filter (\<lambda>d. \<not> matches e (PyDict [(''_id'', i)]) d) (collection w)),
       history := history w @ [CollectionRemove spec_or_id]\<rparr>"

definition now :: "world \<Rightarrow> pyvalue \<times> world" where
  "now w = (DateTime (clock w (ticks w)), w\<lparr>ticks := Suc (ticks w)\<rparr>)"

section \<open>The array codec\<close>

text \<open>
  \<open>_npArray2Binary\<close> pickles the array; the \<open>Binary\<close> wrapper is a byte string with a
  subtype tag and is stored and hashed as its bytes. \<open>_binary2npArray\<close> unpickles whatever
  the bytes hold, or raises what \<open>pickle.loads\<close> raises.
\<close>

definition npArray2Binary :: "env \<Rightarrow> ndarray \<Rightarrow> bytes" where
  "npArray2Binary e npArray = pickle_dumps e npArray"

definition binary2npArray :: "env \<Rightarrow> bytes \<Rightarrow> error + pyvalue" where
  "binary2npArray e binary = pickle_loads e binary"

section \<open>The encode pass\<close>

text \<open>
  What a \<open>for\<close> loop over a value visits: the elements of a list, the characters of a
  string, the keys of a dictionary, the items of an ndarray along its first axis (none
  when that axis is empty; an ndarray of no dimension is not iterable); the other values
  are not iterable (\<open>None\<close> here, a \<open>TypeError\<close> in the loop).
\<close>

fun py_iter :: "env \<Rightarrow> pyvalue \<Rightarrow> pyvalue list option" where
  "py_iter e (PyList xs) = Some xs"
| "py_iter e (PyStr s) = Some (map (\<lambda>c. PyStr [c]) s)"
| "py_iter e (PyDict kvs) = Some (map (\<lambda>kv. PyStr (fst kv)) kvs)"
| "py_iter e (NDArray a) =
     (case shape a of [] \<Rightarrow> None | n # _ \<Rightarrow> Some (take n (ndarray_items e a)))"
| "py_iter e _ = None"

text \<open>
  The inner loop of \<open>_stashNPArrays\<close>, \<open>for obj in self.temp_oldNpObjectIDs\<close>, over a list.
  The list iterator keeps an index \<open>i\<close> into the list it walks, and the body removes from
  that very list: after a removal the next element visited is the one two places further
  in the original list. There is no \<open>break\<close>: the loop goes on after a match.
  \<open>scan_old\<close> returns the exception raised, if any, with the old list, the new list,
  the document and the flag \<open>match\<close> as the loop leaves them.
\<close>

function scan_old ::
  "env \<Rightarrow> world \<Rightarrow> string \<Rightarrow> string \<Rightarrow> nat \<Rightarrow> pyvalue list \<Rightarrow> pyvalue list \<Rightarrow> doc \<Rightarrow> bool
   \<Rightarrow> error option \<times> pyvalue list \<times> pyvalue list \<times> doc \<times> bool" where
  "scan_old e w dataMD5 key i old new document match =
     (if i < length old then
        (let obj = old ! i in
         case fs_get w obj of
           None \<Rightarrow> (Some NoFile, old, new, document, match)
         | Some content \<Rightarrow>
             if dataMD5 = md5_hex e content
             then scan_old e w dataMD5 key (Suc i) (remove1 obj old) (new @ [obj])
                    (dict_set document key obj) True
             else scan_old e w dataMD5 key (Suc i) old new document match)
      else (None, old, new, document, match))"
  by pat_completeness auto
termination
  by (relation "measure (\<lambda>(e, w, dataMD5, key, i, old, new, document, match). length old - i)")
     (auto simp: length_remove1)

declare scan_old.simps [simp del]

text \<open>
  The body of \<open>_stashNPArrays\<close> for a key holding an ndarray (lines 312 to 329): hash the
  pickled array, look for the hash among the old references, and put a new file when
  nothing matched. A string, dictionary or ndarray under \<open>_npObjectIDs\<close> is walked too
  (\<open>scan_other\<close>): \<open>fs.get\<close> raises \<open>NoFile\<close> for an element that names no file, and on a
  match \<open>self.temp_oldNpObjectIDs.remove(obj)\<close> raises \<open>AttributeError\<close>, as none of
  these types has a method \<open>remove\<close>; the write to the document before it is lost with
  the copy.
\<close>

fun scan_other :: "env \<Rightarrow> world \<Rightarrow> string \<Rightarrow> pyvalue list \<Rightarrow> error option" where
  "scan_other e w dataMD5 [] = None"
| "scan_other e w dataMD5 (obj # objs) =
     (case fs_get w obj of
        None \<Rightarrow> Some NoFile
      | Some content \<Rightarrow>
          if dataMD5 = md5_hex e content then Some AttributeError
          else scan_other e w dataMD5 objs)"

definition insert_new :: "env \<Rightarrow> string \<Rightarrow> ndarray \<Rightarrow> doc \<Rightarrow> world \<Rightarrow> (error + doc) \<times> world" where
  "insert_new e key value document w =
     (case fs_put (npArray2Binary e value) w of
        (obj, w') \<Rightarrow>
          (Inr (dict_set document key obj),
           w'\<lparr>temp_newNpObjectIds := temp_newNpObjectIds w' @ [obj]\<rparr>))"

definition resolve_array :: "env \<Rightarrow> string \<Rightarrow> ndarray \<Rightarrow> doc \<Rightarrow> world \<Rightarrow> (error + doc) \<times> world" where
  "resolve_array e key value document w =
     (let dataBSON = npArray2Binary e value;
          dataMD5 = md5_hex e dataBSON
      in case temp_oldNpObjectIDs w of
           PyList old \<Rightarrow>
             (case scan_old e w dataMD5 key 0 old (temp_newNpObjectIds w) document False of
                (err, old', new', document', match) \<Rightarrow>
                  (let w' = w\<lparr>temp_oldNpObjectIDs := PyList old',
                               temp_newNpObjectIds := new'\<rparr>
                   in case err of
                        Some x \<Rightarrow> (Inl x, w')
                      | None \<Rightarrow>
                          if match then (Inr document', w')
                          else insert_new e key value document' w'))
         | other \<Rightarrow>
             (case py_iter e other of
                None \<Rightarrow> (Inl TypeError, w)
              | Some objs \<Rightarrow>
                  (case scan_other e w dataMD5 objs of
                     Some x \<Rightarrow> (Inl x, w)
                   | None \<Rightarrow> insert_new e key value document w)))"

text \<open>
  \<open>_stashNPArrays\<close>: \<open>stash_items\<close> is the loop over \<open>document.items()\<close>, a list made before
  the loop starts, with the document being rewritten as its last argument but one.
\<close>

function stash_items :: "env \<Rightarrow> doc \<Rightarrow> doc \<Rightarrow> world \<Rightarrow> (error + doc) \<times> world" where
  "stash_items e [] document w = (Inr document, w)"
| "stash_items e ((key, value) # items) document w =
     (if is_ndarray value then
        (case resolve_array e key (the_ndarray value) document w of
           (Inl x, w') \<Rightarrow> (Inl x, w')
         | (Inr document', w') \<Rightarrow> stash_items e items document' w')
      else if is_dict value then
        (case stash_items e (the_dict value) (the_dict value) w of
           (Inl x, w') \<Rightarrow> (Inl x, w')
         | (Inr sub', w') \<Rightarrow> stash_items e items (dict_set document key (PyDict sub')) w')
      else if is_np_integer value \<or> is_np_inexact value then
        (if is_np_integer value
         then stash_items e items (dict_set document key (PyInt (int_of value))) w
         else stash_items e items (dict_set document key (PyFloat (float_of value))) w)
      else stash_items e items document w)"
  by pat_completeness auto
termination
proof (relation "measure (\<lambda>(e, items, document, w). size_list (size_prod (\<lambda>_. 0) size) items)")
  fix e :: env and key :: string and "value" :: pyvalue and items document :: doc and w :: world
  assume "is_dict value"
  then show "((e, the_dict value, the_dict value, w), (e, (key, value) # items, document, w))
      \<in> measure (\<lambda>(e, items, document, w). size_list (size_prod (\<lambda>_. 0) size) items)"
    by (cases "value") simp_all
qed simp_all

definition stashNPArrays :: "env \<Rightarrow> doc \<Rightarrow> world \<Rightarrow> (error + doc) \<times> world" where
  "stashNPArrays e document w = stash_items e document document w"

section \<open>The decode pass\<close>

text \<open>
  \<open>_loadNPArrays\<close>: every ObjectId under a key other than \<open>_id\<close> is replaced by the
  unpickled content of the GridFS file of that id; dictionaries are entered. The stores
  are only read.
\<close>

function load_items :: "env \<Rightarrow> world \<Rightarrow> doc \<Rightarrow> doc \<Rightarrow> error + doc" where
  "load_items e w [] document = Inr document"
| "load_items e w ((key, value) # items) document =
     (if is_ObjectId value \<and> key \<noteq> ''_id'' then
        (case fs_get w value of
           None \<Rightarrow> Inl NoFile
         | Some content \<Rightarrow>
             (case binary2npArray e content of
                Inl x \<Rightarrow> Inl x
              | Inr v \<Rightarrow> load_items e w items (dict_set document key v)))
      else if is_dict value then
        (case load_items e w (the_dict value) (the_dict value) of
           Inl x \<Rightarrow> Inl x
         | Inr sub' \<Rightarrow> load_items e w items (dict_set document key (PyDict sub')))
      else load_items e w items document)"
  by pat_completeness auto
termination
proof (relation "measure (\<lambda>(e, w, items, document). size_list (size_prod (\<lambda>_. 0) size) items)")
  fix e :: env and w :: world and key :: string and "value" :: pyvalue and items document :: doc
  assume "is_dict value"
  then show "((e, w, the_dict value, the_dict value), (e, w, (key, value) # items, document))
      \<in> measure (\<lambda>(e, w, items, document). size_list (size_prod (\<lambda>_. 0) size) items)"
    by (cases "value") simp_all
qed simp_all

definition loadNPArrays :: "env \<Rightarrow> world \<Rightarrow> doc \<Rightarrow> error + doc" where
  "loadNPArrays e w document = load_items e w document document"

section \<open>save, load and delete\<close>

text \<open>
  \<open>copy.deepcopy\<close> builds a dictionary that shares no mutable part with its argument, so
  that the writes of \<open>_stashNPArrays\<close> into \<open>docCopy\<close> do not reach \<open>doc\<close>. Values here are
  immutable: the copy is the value itself, and \<open>doc\<close> and \<open>docCopy\<close> are followed as two
  values from there on.
\<close>

definition deepcopy :: "doc \<Rightarrow> doc" where
  "deepcopy d = d"

text \<open>The loop \<open>for id in self.temp_oldNpObjectIDs: self.fs.delete(id)\<close>.\<close>

fun delete_all :: "pyvalue list \<Rightarrow> world \<Rightarrow> world" where
  "delete_all [] w = w"
| "delete_all (i # ids) w = delete_all ids (fs_delete i w)"

text \<open>
  The body of the loop of \<open>save\<close> for one document (lines 152 to 181). It returns the
  exception or the new \<open>_id\<close>, the caller's document \<open>doc\<close> as the body leaves it, and the
  state.
\<close>

definition save_doc :: "env \<Rightarrow> doc \<Rightarrow> world \<Rightarrow> (error + pyvalue) \<times> doc \<times> world" where
  "save_doc e doc w =
     (let docCopy = deepcopy doc;
          w1 = w\<lparr>temp_oldNpObjectIDs :=
                    (case dict_get docCopy ''_npObjectIDs'' of
                       Some v \<Rightarrow> v
                     | None \<Rightarrow> PyList [])\<rparr>;
          w2 = w1\<lparr>temp_newNpObjectIds := []\<rparr>
      in case stashNPArrays e docCopy w2 of
           (Inl x, w3) \<Rightarrow> (Inl x, doc, w3)
         | (Inr docCopy1, w3) \<Rightarrow>
             (let docCopy2 = dict_set docCopy1 ''_npObjectIDs'' (PyList (temp_newNpObjectIds w3));
                  doc1 = dict_set doc ''_npObjectIDs'' (PyList (temp_newNpObjectIds w3))
              in case py_iter e (temp_oldNpObjectIDs w3) of
                   None \<Rightarrow> (Inl TypeError, doc1, w3)
                 | Some ids \<Rightarrow>
                     (let w4 = (delete_all ids w3)\<lparr>temp_oldNpObjectIDs := PyList []\<rparr>
                      in case now w4 of (t1, w5) \<Rightarrow>
                         (let docCopy3 = dict_set docCopy2 ''insertion_date'' t1
                          in case now w5 of (t2, w6) \<Rightarrow>
                             (let doc2 = dict_set doc1 ''insertion_date'' t2
                              in case collection_save e docCopy3 w6 of
                                   (Inl x, w7) \<Rightarrow> (Inl x, doc2, w7)
                                 | (Inr (new_id, docCopy4), w7) \<Rightarrow>
                                     (Inr new_id, dict_set doc2 ''_id'' new_id, w7))))))"

text \<open>
  \<open>save\<close>: a single dictionary is a list of one. The documents are saved in turn; an
  exception ends the call and leaves the documents saved before it in the stores.
\<close>

datatype save_arg = Single doc | Several "doc list"

fun save_loop :: "env \<Rightarrow> doc list \<Rightarrow> pyvalue list \<Rightarrow> world \<Rightarrow> (error + pyvalue list) \<times> doc list \<times> world" where
  "save_loop e [] id_values w = (Inr id_values, [], w)"
| "save_loop e (doc # docs) id_values w =
     (case save_doc e doc w of
        (Inl x, doc', w') \<Rightarrow> (Inl x, doc' # docs, w')
      | (Inr new_id, doc', w') \<Rightarrow>
          (case save_loop e docs (id_values @ [new_id]) w' of
             (r, docs', w'') \<Rightarrow> (r, doc' # docs', w'')))"

definition save :: "env \<Rightarrow> save_arg \<Rightarrow> world \<Rightarrow> (error + pyvalue list) \<times> doc list \<times> world" where
  "save e document w =
     save_loop e (case document of Single d \<Rightarrow> [d] | Several ds \<Rightarrow> ds) [] w"

text \<open>\<open>load\<close> returns \<open>None\<close>, one document or a list of documents.\<close>

datatype load_result = NoDocument | OneDocument doc | Documents "doc list"

fun load_each :: "env \<Rightarrow> world \<Rightarrow> doc list \<Rightarrow> error + doc list" where
  "load_each e w [] = Inr []"
| "load_each e w (d # ds) =
     (case loadNPArrays e w d of
        Inl x \<Rightarrow> Inl x
      | Inr d' \<Rightarrow> (case load_each e w ds of Inl x \<Rightarrow> Inl x | Inr ds' \<Rightarrow> Inr (d' # ds')))"

definition load :: "env \<Rightarrow> pyvalue \<Rightarrow> bool \<Rightarrow> world \<Rightarrow> error + load_result" where
  "load e query getarrays w =
     (let results = collection_find e query w
      in case (if getarrays then load_each e w results else Inr results) of
           Inl x \<Rightarrow> Inl x
         | Inr allResults \<Rightarrow>
             Inr (if allResults \<noteq> [] then
                    (if length allResults > 1 then Documents allResults
                     else if length allResults = 1 then OneDocument (allResults ! 0)
                     else NoDocument)
                  else NoDocument))"

text \<open>
  \<open>delete\<close>: \<open>find_one\<close> returns \<open>None\<close> when no document has the \<open>_id\<close>, and the
  subscript \<open>documentToDelete['_npObjectIDs']\<close> of \<open>None\<close> is a \<open>TypeError\<close>; on a document
  without the key it is a \<open>KeyError\<close>.
\<close>

definition delete :: "env \<Rightarrow> pyvalue \<Rightarrow> world \<Rightarrow> (error + unit) \<times> world" where
  "delete e objectId w =
     (case collection_find_one e (PyDict [(''_id'', objectId)]) w of
        None \<Rightarrow> (Inl TypeError, w)
      | Some documentToDelete \<Rightarrow>
          (case dict_get documentToDelete ''_npObjectIDs'' of
             None \<Rightarrow> (Inl KeyError, w)
           | Some npObjectIdsToDelete \<Rightarrow>
               (case py_iter e npObjectIdsToDelete of
                  None \<Rightarrow> (Inl TypeError, w)
                | Some ids \<Rightarrow> (Inr (), collection_remove e objectId (delete_all ids w)))))"

section \<open>Properties named by the specification\<close>

text \<open>
  The order the specification asks of one save: no file is deleted before the document
  has been written to the collection.
\<close>

fun no_delete_before_upsert :: "event list \<Rightarrow> bool" where
  "no_delete_before_upsert [] = True"
| "no_delete_before_upsert (FsDelete i # evs) = False"
| "no_delete_before_upsert (CollectionSave i # evs) = True"
| "no_delete_before_upsert (ev # evs) = no_delete_before_upsert evs"

text \<open>The three keys \<open>save\<close> writes into the caller's document, and the other entries.\<close>

definition reserved :: "string set" where
  "reserved = {''_npObjectIDs'', ''insertion_date'', ''_id''}"

definition user_fields :: "doc \<Rightarrow> doc" where
  "user_fields d = filter (\<lambda>kv. fst kv \<notin> reserved) d"

text \<open>
  The references a document holds when \<open>save\<close> is called: what a loop over its
  \<open>_npObjectIDs\<close> visits, nothing when the key is absent.
\<close>

definition previous_refs :: "env \<Rightarrow> doc \<Rightarrow> pyvalue list" where
  "previous_refs e d =
     (case dict_get d ''_npObjectIDs'' of
        None \<Rightarrow> []
      | Some v \<Rightarrow> (case py_iter e v of None \<Rightarrow> [] | Some xs \<Rightarrow> xs))"

text \<open>The values a loop over a value visits, none when it is not iterable.\<close>

definition iter_list :: "env \<Rightarrow> pyvalue \<Rightarrow> pyvalue list" where
  "iter_list e v = (case py_iter e v of None \<Rightarrow> [] | Some xs \<Rightarrow> xs)"

text \<open>
  What the encode pass does to the two lists: the references it takes from the old list
  (\<open>rec\<close>) and the files it puts (\<open>puts\<close>) make up what it adds to the new list.
\<close>

definition moved :: "env \<Rightarrow> world \<Rightarrow> world \<Rightarrow> pyvalue list \<Rightarrow> nat list \<Rightarrow> bool" where
  "moved e w w' rec puts =
     (mset (iter_list e (temp_oldNpObjectIDs w))
        = mset (iter_list e (temp_oldNpObjectIDs w')) + mset rec
      \<and> mset (temp_newNpObjectIds w')
        = mset (temp_newNpObjectIds w) + mset rec + mset (map ObjectId puts)
      \<and> history w' = history w @ map FsPut puts)"

section \<open>A concrete setting\<close>

text \<open>
  A small instance of the libraries, used to run the model: arrays of \<open>uint8\<close> pickled as
  their buffer, a digest that keeps of every byte whether it is below 4, queries that
  compare top-level fields, and a driver that refuses a document holding an ndarray or a
  numpy scalar anywhere (in a dictionary or a list, at any depth) with
  \<open>InvalidDocument\<close> and one holding an integer beyond eight bytes with \<open>OverflowError\<close>.
\<close>

fun first_error :: "error option list \<Rightarrow> error option" where
  "first_error [] = None"
| "first_error (None # xs) = first_error xs"
| "first_error (Some x # xs) = Some x"

fun value_error :: "pyvalue \<Rightarrow> error option" where
  "value_error (NDArray a) = Some InvalidDocument"
| "value_error (NpInteger n) = Some InvalidDocument"
| "value_error (NpInexact r) = Some InvalidDocument"
| "value_error (PyInt n) =
     (if - (2 ^ 63) \<le> n \<and> n < 2 ^ 63 then None else Some OverflowError)"
| "value_error (PyList xs) = first_error (map value_error xs)"
| "value_error (PyDict kvs) = first_error (map (\<lambda>kv. value_error (snd kv)) kvs)"
| "value_error _ = None"

definition env0 :: env where
  "env0 =
     \<lparr>pickle_dumps = buffer,
      pickle_loads =
        (\<lambda>b. if b = [] then Inl EOFError else Inr (NDArray (NDArr ''uint8'' [length b] b))),
      md5_hex = map (\<lambda>x. if x < 4 then CHR ''0'' else CHR ''1''),
      matches =
        (\<lambda>q d. case q of
                  PyDict spec \<Rightarrow> list_all (\<lambda>kv. dict_get d (fst kv) = Some (snd kv)) spec
                | _ \<Rightarrow> False),
      bson_error = (\<lambda>d. value_error (PyDict d)),
      ndarray_items = (\<lambda>a. map (\<lambda>b. NpInteger (uint b)) (buffer a))\<rparr>"

definition world0 :: world where
  "world0 =
     \<lparr>fs_files = Map.empty, collection = [], next_oid = 1, clock = (\<lambda>n. 100 + n),
      ticks = 0, temp_oldNpObjectIDs = PyList [], temp_newNpObjectIds = [], history = []\<rparr>"

definition arr1 :: ndarray where
  "arr1 = NDArr ''uint8'' [3] [1, 2, 3]"

definition arr2 :: ndarray where
  "arr2 = NDArr ''uint8'' [3] [4, 5, 6]"

text \<open>
  The scenario of the specification: save \<open>{name: "trial1", data: [1,2,3]}\<close>, then put
  \<open>[4,5,6]\<close> under \<open>data\<close> in the caller's document and save it again.
\<close>

definition doc_trial1 :: doc where
  "doc_trial1 = [(''name'', PyStr ''trial1''), (''data'', NDArray arr1)]"

definition first_save :: "(error + pyvalue) \<times> doc \<times> world" where
  "first_save = save_doc env0 doc_trial1 world0"

definition world1 :: world where
  "world1 = snd (snd first_save)"

definition doc_trial2 :: doc where
  "doc_trial2 = dict_set (fst (snd first_save)) ''data'' (NDArray arr2)"

definition second_save :: "(error + pyvalue) \<times> doc \<times> world" where
  "second_save = save_doc env0 doc_trial2 world1"

text \<open>A collection of two documents, saved by one call.\<close>

definition doc_other :: doc where
  "doc_other = [(''name'', PyStr ''trial2''), (''n'', NpInteger 7)]"

definition world2 :: world where
  "world2 = snd (snd (save env0 (Several [doc_trial1, doc_other]) world0))"

text \<open>
  A document with the same array under three keys, saved as a new document, and the
  caller's document after that save, saved again as it is.
\<close>

definition doc_three :: doc where
  "doc_three = [(''x'', NDArray arr1), (''y'', NDArray arr1), (''z'', NDArray arr1)]"

definition three_saved :: "(error + pyvalue) \<times> doc \<times> world" where
  "three_saved = save_doc env0 doc_three world0"

definition three_resaved :: "(error + pyvalue) \<times> doc \<times> world" where
  "three_resaved = save_doc env0 (fst (snd three_saved)) (snd (snd three_saved))"

text \<open>
  The state in which the encode pass of the second save meets the first array: the old
  references are those of the first save, the new list is empty.
\<close>

definition world3 :: world where
  "world3 =
     (snd (snd three_saved))
       \<lparr>temp_oldNpObjectIDs := PyList [ObjectId 1, ObjectId 2, ObjectId 3],
        temp_newNpObjectIds := []\<rparr>"


text \<open>Putting the pickles of a list of arrays into GridFS one after the other, as new files.\<close>

fun put_arrays :: "env \<Rightarrow> ndarray list \<Rightarrow> world \<Rightarrow> world" where
  "put_arrays e [] w = w"
| "put_arrays e (a # as) w =
     put_arrays e as
       (w\<lparr>fs_files := (fs_files w)(next_oid w \<mapsto> npArray2Binary e a),
          next_oid := Suc (next_oid w),
          history := history w @ [FsPut (next_oid w)],
          temp_newNpObjectIds := temp_newNpObjectIds w @ [ObjectId (next_oid w)]\<rparr>)"




section \<open>Notions for the round trip\<close>





text \<open>
  \<open>enc_rel e P items items'\<close>: \<open>items'\<close> is \<open>items\<close> as the encode pass rewrites it, every
  array replaced by a reference \<open>obj\<close> with \<open>P obj\<close> of the pickle of the array.
\<close>

inductive enc_rel :: "env \<Rightarrow> (pyvalue \<Rightarrow> bytes \<Rightarrow> bool) \<Rightarrow> doc \<Rightarrow> doc \<Rightarrow> bool"
  for e :: env and P :: "pyvalue \<Rightarrow> bytes \<Rightarrow> bool" where
  enc_Nil: "enc_rel e P [] []"
| enc_Array:
    "is_ndarray v \<Longrightarrow> P obj (npArray2Binary e (the_ndarray v)) \<Longrightarrow> enc_rel e P items items' \<Longrightarrow>
     enc_rel e P ((k, v) # items) ((k, obj) # items')"
| enc_Dict:
    "\<not> is_ndarray v \<Longrightarrow> is_dict v \<Longrightarrow> enc_rel e P (the_dict v) sub' \<Longrightarrow>
     enc_rel e P items items' \<Longrightarrow>
     enc_rel e P ((k, v) # items) ((k, PyDict sub') # items')"
| enc_Integer:
    "is_np_integer v \<Longrightarrow> enc_rel e P items items' \<Longrightarrow>
     enc_rel e P ((k, v) # items) ((k, PyInt (int_of v)) # items')"
| enc_Inexact:
    "is_np_inexact v \<Longrightarrow> enc_rel e P items items' \<Longrightarrow>
     enc_rel e P ((k, v) # items) ((k, PyFloat (float_of v)) # items')"
| enc_Other:
    "\<not> is_ndarray v \<Longrightarrow> \<not> is_dict v \<Longrightarrow> \<not> is_np_integer v \<Longrightarrow> \<not> is_np_inexact v \<Longrightarrow>
     enc_rel e P items items' \<Longrightarrow>
     enc_rel e P ((k, v) # items) ((k, v) # items')"










section \<open>Basic facts\<close>

lemma dict_get_dict_set:
  "dict_get (dict_set d k v) k' = (if k' = k then Some v else dict_get d k')"
  by (induction d) (auto simp: dict_get_def)

lemma filter_dict_set:
  "(\<And>v'. \<not> P (k, v')) \<Longrightarrow> filter P (dict_set d k v) = filter P d"
  by (induction d) auto

lemma user_fields_dict_set: "k \<in> reserved \<Longrightarrow> user_fields (dict_set d k v) = user_fields d"
  unfolding user_fields_def by (rule filter_dict_set) simp

lemma delete_all_frame [simp]:
  "temp_newNpObjectIds (delete_all ids w) = temp_newNpObjectIds w"
  "temp_oldNpObjectIDs (delete_all ids w) = temp_oldNpObjectIDs w"
  "collection (delete_all ids w) = collection w"
  "next_oid (delete_all ids w) = next_oid w"
  "clock (delete_all ids w) = clock w"
  "ticks (delete_all ids w) = ticks w"
  by (induction ids arbitrary: w) (simp_all add: fs_delete_def)

lemma fs_files_delete_all:
  "fs_files (delete_all ids w) n = (if ObjectId n \<in> set ids then None else fs_files w n)"
proof (induction ids arbitrary: w)
  case Nil
  show ?case by simp
next
  case (Cons i ids)
  show ?case by (cases i) (simp_all add: Cons.IH fs_delete_def)
qed

lemma history_delete_all: "history (delete_all ids w) = history w @ map FsDelete ids"
  by (induction ids arbitrary: w) (simp_all add: fs_delete_def)

lemma fs_get_delete_all: "x \<in> set ids \<Longrightarrow> fs_get (delete_all ids w) x = None"
  by (cases x) (simp_all add: fs_files_delete_all)

subsection \<open>One round of the loop over the old references\<close>

lemma scan_old_done:
  "\<not> i < length old \<Longrightarrow> scan_old e w h key i old new d m = (None, old, new, d, m)"
  by (subst scan_old.simps) simp

lemma scan_old_nofile:
  "i < length old \<Longrightarrow> fs_get w (old ! i) = None \<Longrightarrow>
   scan_old e w h key i old new d m = (Some NoFile, old, new, d, m)"
  by (subst scan_old.simps) (simp add: Let_def)

lemma scan_old_hit:
  "i < length old \<Longrightarrow> fs_get w (old ! i) = Some c \<Longrightarrow> h = md5_hex e c \<Longrightarrow>
   scan_old e w h key i old new d m =
     scan_old e w h key (Suc i) (remove1 (old ! i) old) (new @ [old ! i])
       (dict_set d key (old ! i)) True"
  by (subst scan_old.simps) (simp add: Let_def)

lemma scan_old_miss:
  "i < length old \<Longrightarrow> fs_get w (old ! i) = Some c \<Longrightarrow> h \<noteq> md5_hex e c \<Longrightarrow>
   scan_old e w h key i old new d m = scan_old e w h key (Suc i) old new d m"
  by (subst scan_old.simps) (simp add: Let_def)

subsection \<open>The two shapes of \<open>resolve_array\<close>\<close>

lemma resolve_array_list:
  assumes "temp_oldNpObjectIDs w = PyList old"
    and "scan_old e w (md5_hex e (npArray2Binary e a)) key 0 old (temp_newNpObjectIds w) d False
         = (err, old', new', d', m)"
  shows "resolve_array e key a d w =
     (let w' = w\<lparr>temp_oldNpObjectIDs := PyList old', temp_newNpObjectIds := new'\<rparr>
      in case err of Some x \<Rightarrow> (Inl x, w')
         | None \<Rightarrow> if m then (Inr d', w') else insert_new e key a d' w')"
  using assms by (simp add: resolve_array_def Let_def)

lemma resolve_array_other:
  assumes "\<And>old. temp_oldNpObjectIDs w \<noteq> PyList old"
  shows "resolve_array e key a d w =
     (case py_iter e (temp_oldNpObjectIDs w) of
        None \<Rightarrow> (Inl TypeError, w)
      | Some objs \<Rightarrow>
          (case scan_other e w (md5_hex e (npArray2Binary e a)) objs of
             Some x \<Rightarrow> (Inl x, w)
           | None \<Rightarrow> insert_new e key a d w))"
  using assms by (cases "temp_oldNpObjectIDs w") (auto simp: resolve_array_def Let_def)

subsection \<open>The encode pass only puts files\<close>

lemma history_resolve_array_cases:
  assumes "resolve_array e key a d w = (r, w')"
  shows "history w' = history w \<or> history w' = history w @ [FsPut (next_oid w)]"
proof (cases "\<exists>old. temp_oldNpObjectIDs w = PyList old")
  case True
  then obtain old where old: "temp_oldNpObjectIDs w = PyList old" by blast
  obtain err old' new' d' m where
    sc: "scan_old e w (md5_hex e (npArray2Binary e a)) key 0 old (temp_newNpObjectIds w) d False
         = (err, old', new', d', m)"
    using prod_cases5 by blast
  show ?thesis
    using assms unfolding resolve_array_list[OF old sc]
    by (auto simp: Let_def insert_new_def fs_put_def split: option.splits if_splits)
next
  case False
  then have "\<And>old. temp_oldNpObjectIDs w \<noteq> PyList old" by blast
  from resolve_array_other[OF this] assms show ?thesis
    by (auto simp: insert_new_def fs_put_def split: option.splits list.splits)
qed

lemma history_resolve_array:
  assumes "resolve_array e key a d w = (r, w')"
  shows "\<exists>puts. history w' = history w @ map FsPut puts"
proof -
  from history_resolve_array_cases[OF assms] show ?thesis
  proof
    assume "history w' = history w"
    then have "history w' = history w @ map FsPut []" by simp
    then show ?thesis by blast
  next
    assume "history w' = history w @ [FsPut (next_oid w)]"
    then have "history w' = history w @ map FsPut [next_oid w]" by simp
    then show ?thesis by blast
  qed
qed

lemma history_stash_items:
  "stash_items e items d w = (r, w') \<Longrightarrow> \<exists>puts. history w' = history w @ map FsPut puts"
proof (induction e items d w arbitrary: r w' rule: stash_items.induct)
  case (1 e document w)
  then have "history w' = history w @ map FsPut []" by simp
  then show ?case by blast
next
  case (2 e key v items document w)
  consider (arr) "is_ndarray v" | (dict) "\<not> is_ndarray v" "is_dict v"
    | (int) "\<not> is_ndarray v" "\<not> is_dict v" "is_np_integer v"
    | (float) "\<not> is_ndarray v" "\<not> is_dict v" "\<not> is_np_integer v" "is_np_inexact v"
    | (other) "\<not> is_ndarray v" "\<not> is_dict v" "\<not> is_np_integer v" "\<not> is_np_inexact v"
    by blast
  then show ?case
  proof cases
    case arr
    obtain r1 w1 where r1: "resolve_array e key (the_ndarray v) document w = (r1, w1)"
      by force
    then obtain p1 where p1: "history w1 = history w @ map FsPut p1"
      using history_resolve_array by blast
    show ?thesis
    proof (cases r1)
      case (Inl x)
      with "2.prems" arr r1 have "w' = w1" by simp
      with p1 show ?thesis by blast
    next
      case (Inr d1)
      with "2.prems" arr r1 have "stash_items e items d1 w1 = (r, w')" by simp
      from "2.IH"(1)[OF arr r1[symmetric] Inr this]
      obtain p2 where "history w' = history w1 @ map FsPut p2" by blast
      with p1 have "history w' = history w @ map FsPut (p1 @ p2)" by simp
      then show ?thesis by blast
    qed
  next
    case dict
    obtain r1 w1 where r1: "stash_items e (the_dict v) (the_dict v) w = (r1, w1)" by force
    from "2.IH"(2)[OF dict r1] obtain p1 where p1: "history w1 = history w @ map FsPut p1"
      by blast
    show ?thesis
    proof (cases r1)
      case (Inl x)
      with "2.prems" dict r1 have "w' = w1" by simp
      with p1 show ?thesis by blast
    next
      case (Inr d1)
      with "2.prems" dict r1
      have "stash_items e items (dict_set document key (PyDict d1)) w1 = (r, w')" by simp
      from "2.IH"(3)[OF dict r1[symmetric] Inr this]
      obtain p2 where "history w' = history w1 @ map FsPut p2" by blast
      with p1 have "history w' = history w @ map FsPut (p1 @ p2)" by simp
      then show ?thesis by blast
    qed
  next
    case int
    with "2.prems"
    have "stash_items e items (dict_set document key (PyInt (int_of v))) w = (r, w')" by simp
    from "2.IH"(4)[OF int(1,2) _ int(3) this] int(3) show ?thesis by blast
  next
    case float
    with "2.prems"
    have "stash_items e items (dict_set document key (PyFloat (float_of v))) w = (r, w')"
      by simp
    from "2.IH"(5)[OF float(1,2) _ float(3) this] float(4) show ?thesis by blast
  next
    case other
    with "2.prems" have "stash_items e items document w = (r, w')" by simp
    from "2.IH"(6)[OF other(1,2) _ this] other show ?thesis by blast
  qed
qed

subsection \<open>Running the concrete setting\<close>

lemmas run_defs =
  save_doc_def deepcopy_def dict_get_def stashNPArrays_def resolve_array_def insert_new_def
  fs_put_def fs_delete_def npArray2Binary_def binary2npArray_def now_def collection_save_def
  loadNPArrays_def Let_def scan_old.simps

lemma first_save_eq:
  "first_save =
     (Inr (ObjectId 2),
      [(''name'', PyStr ''trial1''), (''data'', NDArray arr1),
       (''_npObjectIDs'', PyList [ObjectId 1]), (''insertion_date'', DateTime 101),
       (''_id'', ObjectId 2)],
      \<lparr>fs_files = [1 \<mapsto> [1, 2, 3]],
       collection =
         [[(''name'', PyStr ''trial1''), (''data'', ObjectId 1),
           (''_npObjectIDs'', PyList [ObjectId 1]), (''insertion_date'', DateTime 100),
           (''_id'', ObjectId 2)]],
       next_oid = 3, clock = (\<lambda>n. 100 + n), ticks = 2,
       temp_oldNpObjectIDs = PyList [], temp_newNpObjectIds = [ObjectId 1],
       history = [FsPut 1, CollectionSave (ObjectId 2)]\<rparr>)"
  by (simp add: first_save_def doc_trial1_def arr1_def env0_def world0_def run_defs)

lemma world1_eq:
  "world1 =
      \<lparr>fs_files = [1 \<mapsto> [1, 2, 3]],
       collection =
         [[(''name'', PyStr ''trial1''), (''data'', ObjectId 1),
           (''_npObjectIDs'', PyList [ObjectId 1]), (''insertion_date'', DateTime 100),
           (''_id'', ObjectId 2)]],
       next_oid = 3, clock = (\<lambda>n. 100 + n), ticks = 2,
       temp_oldNpObjectIDs = PyList [], temp_newNpObjectIds = [ObjectId 1],
       history = [FsPut 1, CollectionSave (ObjectId 2)]\<rparr>"
  by (simp add: world1_def first_save_eq)

lemma doc_trial2_eq:
  "doc_trial2 =
      [(''name'', PyStr ''trial1''), (''data'', NDArray arr2),
       (''_npObjectIDs'', PyList [ObjectId 1]), (''insertion_date'', DateTime 101),
       (''_id'', ObjectId 2)]"
  by (simp add: doc_trial2_def first_save_eq)

lemma second_save_eq:
  "second_save =
     (Inr (ObjectId 2),
      [(''name'', PyStr ''trial1''), (''data'', NDArray arr2),
       (''_npObjectIDs'', PyList [ObjectId 3]), (''insertion_date'', DateTime 103),
       (''_id'', ObjectId 2)],
      \<lparr>fs_files = [3 \<mapsto> [4, 5, 6]],
       collection =
         [[(''name'', PyStr ''trial1''), (''data'', ObjectId 3),
           (''_npObjectIDs'', PyList [ObjectId 3]), (''insertion_date'', DateTime 102),
           (''_id'', ObjectId 2)]],
       next_oid = 4, clock = (\<lambda>n. 100 + n), ticks = 4,
       temp_oldNpObjectIDs = PyList [], temp_newNpObjectIds = [ObjectId 3],
       history = [FsPut 1, CollectionSave (ObjectId 2), FsPut 3, FsDelete (ObjectId 1),
                  CollectionSave (ObjectId 2)]\<rparr>)"
  by (simp add: second_save_def doc_trial2_eq world1_eq arr2_def env0_def run_defs)

lemma save_single:
  "save e (Single doc) w =
     (case save_doc e doc w of
        (Inl x, doc', w') \<Rightarrow> (Inl x, [doc'], w')
      | (Inr i, doc', w') \<Rightarrow> (Inr [i], [doc'], w'))"
  by (simp add: save_def split: prod.splits sum.splits)

lemma world2_eq:
  "world2 =
     \<lparr>fs_files = [1 \<mapsto> [1, 2, 3]],
      collection =
        [[(''name'', PyStr ''trial1''), (''data'', ObjectId 1),
          (''_npObjectIDs'', PyList [ObjectId 1]), (''insertion_date'', DateTime 100),
          (''_id'', ObjectId 2)],
         [(''name'', PyStr ''trial2''), (''n'', PyInt 7),
          (''_npObjectIDs'', PyList []), (''insertion_date'', DateTime 102),
          (''_id'', ObjectId 3)]],
      next_oid = 4, clock = (\<lambda>n. 100 + n), ticks = 4,
      temp_oldNpObjectIDs = PyList [], temp_newNpObjectIds = [],
      history = [FsPut 1, CollectionSave (ObjectId 2), CollectionSave (ObjectId 3)]\<rparr>"
  by (simp add: world2_def save_def doc_trial1_def doc_other_def arr1_def env0_def world0_def
      run_defs)

lemma three_saved_eq:
  "three_saved =
     (Inr (ObjectId 4),
      [(''x'', NDArray arr1), (''y'', NDArray arr1), (''z'', NDArray arr1),
       (''_npObjectIDs'', PyList [ObjectId 1, ObjectId 2, ObjectId 3]),
       (''insertion_date'', DateTime 101), (''_id'', ObjectId 4)],
      \<lparr>fs_files = [Suc 0 \<mapsto> [1, 2, 3], Suc (Suc 0) \<mapsto> [1, 2, 3], Suc (Suc (Suc 0)) \<mapsto> [1, 2, 3]],
       collection =
         [[(''x'', ObjectId 1), (''y'', ObjectId 2), (''z'', ObjectId 3),
           (''_npObjectIDs'', PyList [ObjectId 1, ObjectId 2, ObjectId 3]),
           (''insertion_date'', DateTime 100), (''_id'', ObjectId 4)]],
       next_oid = 5, clock = (\<lambda>n. 100 + n), ticks = 2,
       temp_oldNpObjectIDs = PyList [],
       temp_newNpObjectIds = [ObjectId 1, ObjectId 2, ObjectId 3],
       history = [FsPut 1, FsPut 2, FsPut 3, CollectionSave (ObjectId 4)]\<rparr>)"
  by (simp add: three_saved_def doc_three_def arr1_def env0_def world0_def run_defs)

lemma three_resaved_eq:
  "three_resaved =
     (Inr (ObjectId 4),
      [(''x'', NDArray arr1), (''y'', NDArray arr1), (''z'', NDArray arr1),
       (''_npObjectIDs'', PyList [ObjectId 1, ObjectId 3, ObjectId 2, ObjectId 5]),
       (''insertion_date'', DateTime 103), (''_id'', ObjectId 4)],
      \<lparr>fs_files = [Suc 0 \<mapsto> [1, 2, 3], Suc (Suc 0) \<mapsto> [1, 2, 3], Suc (Suc (Suc 0)) \<mapsto> [1, 2, 3],
                   5 \<mapsto> [1, 2, 3]],
       collection =
         [[(''x'', ObjectId 3), (''y'', ObjectId 2), (''z'', ObjectId 5),
           (''_npObjectIDs'', PyList [ObjectId 1, ObjectId 3, ObjectId 2, ObjectId 5]),
           (''insertion_date'', DateTime 102), (''_id'', ObjectId 4)]],
       next_oid = 6, clock = (\<lambda>n. 100 + n), ticks = 4,
       temp_oldNpObjectIDs = PyList [],
       temp_newNpObjectIds = [ObjectId 1, ObjectId 3, ObjectId 2, ObjectId 5],
       history = [FsPut 1, FsPut 2, FsPut 3, CollectionSave (ObjectId 4), FsPut 5,
                  CollectionSave (ObjectId 4)]\<rparr>)"
  by (simp add: three_resaved_def three_saved_eq arr1_def env0_def run_defs)

section \<open>The order of deletion and upsert\<close>

lemma scan_old_moves:
  "scan_old e w h key i old new d m = (err, old', new', d', m') \<Longrightarrow>
   \<exists>rec. mset old = mset old' + mset rec \<and> new' = new @ rec"
proof (induction e w h key i old new d m rule: scan_old.induct)
  case (1 e w dataMD5 key i old new document match)
  have stop: "old' = old \<and> new' = new \<Longrightarrow> ?case"
  proof -
    assume "old' = old \<and> new' = new"
    then have "mset old = mset old' + mset [] \<and> new' = new @ []" by simp
    then show ?case by blast
  qed
  show ?case
  proof (cases "i < length old")
    case False
    with "1.prems" stop show ?thesis by (simp add: scan_old_done)
  next
    case True
    show ?thesis
    proof (cases "fs_get w (old ! i)")
      case None
      with True "1.prems" stop show ?thesis by (simp add: scan_old_nofile)
    next
      case (Some content)
      show ?thesis
      proof (cases "dataMD5 = md5_hex e content")
        case hit: True
        let ?obj = "old ! i"
        from "1.prems" scan_old_hit[OF True Some hit]
        have "scan_old e w dataMD5 key (Suc i) (remove1 ?obj old) (new @ [?obj])
                (dict_set document key ?obj) True = (err, old', new', d', m')"
          by simp
        from "1.IH"(1)[OF True refl Some hit this] obtain rec where
          rec: "mset (remove1 ?obj old) = mset old' + mset rec" "new' = (new @ [?obj]) @ rec"
          by blast
        from True have "?obj \<in># mset old" by simp
        then have "add_mset ?obj (mset old - {#?obj#}) = mset old" by (rule insert_DiffM)
        then have e1: "add_mset ?obj (mset (remove1 ?obj old)) = mset old" by simp
        have e2: "mset old' + mset (?obj # rec) = add_mset ?obj (mset old' + mset rec)" by simp
        have "mset old = mset old' + mset (?obj # rec)"
          unfolding e2 using e1[unfolded rec(1)] by (rule sym)
        moreover have "new' = new @ (?obj # rec)" using rec(2) by simp
        ultimately show ?thesis by blast
      next
        case miss: False
        from "1.prems" scan_old_miss[OF True Some miss]
        have "scan_old e w dataMD5 key (Suc i) old new document match = (err, old', new', d', m')"
          by simp
        from "1.IH"(2)[OF True refl Some miss this] show ?thesis .
      qed
    qed
  qed
qed

lemma resolve_array_moves:
  assumes "resolve_array e key a d w = (r, w')"
  shows "\<exists>rec puts.
      mset (iter_list e (temp_oldNpObjectIDs w))
        = mset (iter_list e (temp_oldNpObjectIDs w')) + mset rec
      \<and> temp_newNpObjectIds w' = temp_newNpObjectIds w @ rec @ map ObjectId puts
      \<and> history w' = history w @ map FsPut puts"
proof -
  have none: "temp_oldNpObjectIDs w' = temp_oldNpObjectIDs w \<and>
      temp_newNpObjectIds w' = temp_newNpObjectIds w \<and> history w' = history w \<Longrightarrow> ?thesis"
  proof -
    assume a: "temp_oldNpObjectIDs w' = temp_oldNpObjectIDs w \<and>
      temp_newNpObjectIds w' = temp_newNpObjectIds w \<and> history w' = history w"
    then have "mset (iter_list e (temp_oldNpObjectIDs w))
        = mset (iter_list e (temp_oldNpObjectIDs w')) + mset []
      \<and> temp_newNpObjectIds w' = temp_newNpObjectIds w @ [] @ map ObjectId []
      \<and> history w' = history w @ map FsPut []" by simp
    then show ?thesis by blast
  qed
  show ?thesis
  proof (cases "\<exists>old. temp_oldNpObjectIDs w = PyList old")
    case True
    then obtain old where old: "temp_oldNpObjectIDs w = PyList old" by blast
    obtain err old' new' d' m where
      sc: "scan_old e w (md5_hex e (npArray2Binary e a)) key 0 old (temp_newNpObjectIds w) d False
           = (err, old', new', d', m)"
      using prod_cases5 by blast
    from scan_old_moves[OF sc] obtain rec where
      rec: "mset old = mset old' + mset rec" "new' = temp_newNpObjectIds w @ rec" by blast
    let ?w1 = "w\<lparr>temp_oldNpObjectIDs := PyList old', temp_newNpObjectIds := new'\<rparr>"
    have res: "(r, w') = (case err of Some x \<Rightarrow> (Inl x, ?w1)
         | None \<Rightarrow> if m then (Inr d', ?w1) else insert_new e key a d' ?w1)"
      using assms unfolding resolve_array_list[OF old sc] by (simp add: Let_def)
    have "w' = ?w1 \<or>
        w' = ?w1\<lparr>fs_files := (fs_files w)(next_oid w \<mapsto> npArray2Binary e a),
                  next_oid := Suc (next_oid w),
                  history := history w @ [FsPut (next_oid w)],
                  temp_newNpObjectIds := new' @ [ObjectId (next_oid w)]\<rparr>"
      using res by (auto simp: insert_new_def fs_put_def split: option.splits if_splits)
    then show ?thesis
    proof
      assume "w' = ?w1"
      with old rec have "mset (iter_list e (temp_oldNpObjectIDs w))
          = mset (iter_list e (temp_oldNpObjectIDs w')) + mset rec
        \<and> temp_newNpObjectIds w' = temp_newNpObjectIds w @ rec @ map ObjectId []
        \<and> history w' = history w @ map FsPut []"
        by (simp add: iter_list_def)
      then show ?thesis by blast
    next
      assume "w' = ?w1\<lparr>fs_files := (fs_files w)(next_oid w \<mapsto> npArray2Binary e a),
                  next_oid := Suc (next_oid w),
                  history := history w @ [FsPut (next_oid w)],
                  temp_newNpObjectIds := new' @ [ObjectId (next_oid w)]\<rparr>"
      with old rec have "mset (iter_list e (temp_oldNpObjectIDs w))
          = mset (iter_list e (temp_oldNpObjectIDs w')) + mset rec
        \<and> temp_newNpObjectIds w' = temp_newNpObjectIds w @ rec @ map ObjectId [next_oid w]
        \<and> history w' = history w @ map FsPut [next_oid w]"
        by (simp add: iter_list_def)
      then show ?thesis by blast
    qed
  next
    case False
    then have "\<And>old. temp_oldNpObjectIDs w \<noteq> PyList old" by blast
    from resolve_array_other[OF this] assms
    have "w' = w \<or>
        w' = w\<lparr>fs_files := (fs_files w)(next_oid w \<mapsto> npArray2Binary e a),
                next_oid := Suc (next_oid w),
                history := history w @ [FsPut (next_oid w)],
                temp_newNpObjectIds := temp_newNpObjectIds w @ [ObjectId (next_oid w)]\<rparr>"
      by (auto simp: insert_new_def fs_put_def split: option.splits list.splits)
    then show ?thesis
    proof
      assume "w' = w"
      with none show ?thesis by simp
    next
      assume "w' = w\<lparr>fs_files := (fs_files w)(next_oid w \<mapsto> npArray2Binary e a),
                next_oid := Suc (next_oid w),
                history := history w @ [FsPut (next_oid w)],
                temp_newNpObjectIds := temp_newNpObjectIds w @ [ObjectId (next_oid w)]\<rparr>"
      then have "mset (iter_list e (temp_oldNpObjectIDs w))
          = mset (iter_list e (temp_oldNpObjectIDs w')) + mset []
        \<and> temp_newNpObjectIds w' = temp_newNpObjectIds w @ [] @ map ObjectId [next_oid w]
        \<and> history w' = history w @ map FsPut [next_oid w]"
        by simp
      then show ?thesis by blast
    qed
  qed
qed

lemma moved_refl: "moved e w w [] []"
  by (simp add: moved_def)

lemma moved_trans:
  "moved e w w1 rec1 puts1 \<Longrightarrow> moved e w1 w2 rec2 puts2 \<Longrightarrow>
   moved e w w2 (rec1 @ rec2) (puts1 @ puts2)"
  by (simp add: moved_def)

lemma resolve_array_moved:
  assumes "resolve_array e key a d w = (r, w')"
  shows "\<exists>rec puts. moved e w w' rec puts"
proof -
  from resolve_array_moves[OF assms] obtain rec puts where
    "mset (iter_list e (temp_oldNpObjectIDs w))
        = mset (iter_list e (temp_oldNpObjectIDs w')) + mset rec"
    "temp_newNpObjectIds w' = temp_newNpObjectIds w @ rec @ map ObjectId puts"
    "history w' = history w @ map FsPut puts"
    by blast
  then have "moved e w w' rec puts" by (simp add: moved_def)
  then show ?thesis by blast
qed

lemma stash_items_moved:
  "stash_items e items d w = (r, w') \<Longrightarrow> \<exists>rec puts. moved e w w' rec puts"
proof (induction e items d w arbitrary: r w' rule: stash_items.induct)
  case (1 e document w)
  then have "moved e w w' [] []" by (simp add: moved_refl)
  then show ?case by blast
next
  case (2 e key v items document w)
  consider (arr) "is_ndarray v" | (dict) "\<not> is_ndarray v" "is_dict v"
    | (int) "\<not> is_ndarray v" "\<not> is_dict v" "is_np_integer v"
    | (float) "\<not> is_ndarray v" "\<not> is_dict v" "\<not> is_np_integer v" "is_np_inexact v"
    | (other) "\<not> is_ndarray v" "\<not> is_dict v" "\<not> is_np_integer v" "\<not> is_np_inexact v"
    by blast
  then show ?case
  proof cases
    case arr
    obtain r1 w1 where r1: "resolve_array e key (the_ndarray v) document w = (r1, w1)"
      by force
    from resolve_array_moved[OF r1] obtain rec1 puts1 where m1: "moved e w w1 rec1 puts1"
      by blast
    show ?thesis
    proof (cases r1)
      case (Inl x)
      with "2.prems" arr r1 have "w' = w1" by simp
      with m1 show ?thesis by blast
    next
      case (Inr d1)
      with "2.prems" arr r1 have "stash_items e items d1 w1 = (r, w')" by simp
      from "2.IH"(1)[OF arr r1[symmetric] Inr this]
      obtain rec2 puts2 where "moved e w1 w' rec2 puts2" by blast
      from moved_trans[OF m1 this] show ?thesis by blast
    qed
  next
    case dict
    obtain r1 w1 where r1: "stash_items e (the_dict v) (the_dict v) w = (r1, w1)" by force
    from "2.IH"(2)[OF dict r1] obtain rec1 puts1 where m1: "moved e w w1 rec1 puts1"
      by blast
    show ?thesis
    proof (cases r1)
      case (Inl x)
      with "2.prems" dict r1 have "w' = w1" by simp
      with m1 show ?thesis by blast
    next
      case (Inr d1)
      with "2.prems" dict r1
      have "stash_items e items (dict_set document key (PyDict d1)) w1 = (r, w')" by simp
      from "2.IH"(3)[OF dict r1[symmetric] Inr this]
      obtain rec2 puts2 where "moved e w1 w' rec2 puts2" by blast
      from moved_trans[OF m1 this] show ?thesis by blast
    qed
  next
    case int
    with "2.prems"
    have "stash_items e items (dict_set document key (PyInt (int_of v))) w = (r, w')" by simp
    from "2.IH"(4)[OF int(1,2) _ int(3) this] int(3) show ?thesis by blast
  next
    case float
    with "2.prems"
    have "stash_items e items (dict_set document key (PyFloat (float_of v))) w = (r, w')"
      by simp
    from "2.IH"(5)[OF float(1,2) _ float(3) this] float(4) show ?thesis by blast
  next
    case other
    with "2.prems" have "stash_items e items document w = (r, w')" by simp
    from "2.IH"(6)[OF other(1,2) _ this] other show ?thesis by blast
  qed
qed

lemma save_doc_history:
  assumes "save_doc e doc w = (Inr i, doc', w')"
  shows "\<exists>puts orphans reclaimed new_refs.
      history w' = history w @ map FsPut puts @ map FsDelete orphans @ [CollectionSave i]
      \<and> mset (previous_refs e doc) = mset orphans + mset reclaimed
      \<and> dict_get doc' ''_npObjectIDs'' = Some (PyList new_refs)
      \<and> mset new_refs = mset reclaimed + mset (map ObjectId puts)
      \<and> (\<forall>x\<in>set orphans. fs_get w' x = None)"
proof -
  let ?w2 = "w\<lparr>temp_oldNpObjectIDs :=
                  (case dict_get doc ''_npObjectIDs'' of Some v \<Rightarrow> v | None \<Rightarrow> PyList []),
               temp_newNpObjectIds := []\<rparr>"
  obtain r3 w3 where st: "stashNPArrays e doc ?w2 = (r3, w3)" by force
  then have st': "stash_items e doc doc ?w2 = (r3, w3)" by (simp add: stashNPArrays_def)
  from stash_items_moved[OF st'] obtain reclaimed puts where mv: "moved e ?w2 w3 reclaimed puts"
    by blast
  from assms st obtain d3 where r3: "r3 = Inr d3"
    by (cases r3) (auto simp: save_doc_def deepcopy_def Let_def)
  from assms st r3 obtain orphans where orphans: "py_iter e (temp_oldNpObjectIDs w3) = Some orphans"
    by (cases "py_iter e (temp_oldNpObjectIDs w3)") (auto simp: save_doc_def deepcopy_def Let_def)
  let ?w4 = "(delete_all orphans w3)\<lparr>temp_oldNpObjectIDs := PyList []\<rparr>"
  from assms st r3 orphans
  have h: "history w' = history ?w4 @ [CollectionSave i]" and f: "fs_files w' = fs_files ?w4"
    and n: "dict_get doc' ''_npObjectIDs'' = Some (PyList (temp_newNpObjectIds w3))"
    by (auto simp: save_doc_def deepcopy_def Let_def now_def collection_save_def
        dict_get_dict_set split: option.splits prod.splits sum.splits)
  have prev: "iter_list e (temp_oldNpObjectIDs ?w2) = previous_refs e doc"
    by (simp add: iter_list_def previous_refs_def split: option.splits)
  have orph: "iter_list e (temp_oldNpObjectIDs w3) = orphans"
    using orphans by (simp add: iter_list_def)
  from mv prev orph have a: "mset (previous_refs e doc) = mset orphans + mset reclaimed"
    and b: "mset (temp_newNpObjectIds w3) = mset reclaimed + mset (map ObjectId puts)"
    and c: "history w3 = history w @ map FsPut puts"
    by (simp_all add: moved_def)
  have "history w' = history w @ map FsPut puts @ map FsDelete orphans @ [CollectionSave i]"
    using h c by (simp add: history_delete_all)
  moreover have "\<forall>x\<in>set orphans. fs_get w' x = None"
  proof
    fix x assume x: "x \<in> set orphans"
    show "fs_get w' x = None"
      using fs_get_delete_all[OF x, of w3] f by (cases x) simp_all
  qed
  ultimately show ?thesis using a b n by blast
qed

text \<open>
  C1, as the code has it: in one save, every old reference that the encode pass did not
  take over is deleted from GridFS before the document is written to the collection. The
  store calls of the save are the puts of the encode pass, then the deletions of the
  orphans, then one \<open>collection.save\<close>, which is the last call. The orphans are exactly
  the references the document held before that were not taken over: the old references
  are the orphans and the references taken over (\<open>reclaimed\<close>), and the new reference list
  is the references taken over and the files put. Every orphan is gone from GridFS when
  \<open>save\<close> returns.
\<close>

theorem save_deletes_orphans_before_upsert:
  assumes "save e (Single doc) w = (Inr ids, docs', w')"
  shows "\<exists>i doc' puts orphans reclaimed new_refs.
           ids = [i] \<and> docs' = [doc']
           \<and> history w' = history w @ map FsPut puts @ map FsDelete orphans @ [CollectionSave i]
           \<and> mset (previous_refs e doc) = mset orphans + mset reclaimed
           \<and> dict_get doc' ''_npObjectIDs'' = Some (PyList new_refs)
           \<and> mset new_refs = mset reclaimed + mset (map ObjectId puts)
           \<and> (\<forall>x\<in>set orphans. fs_get w' x = None)"
proof -
  from assms obtain i doc' where s: "save_doc e doc w = (Inr i, doc', w')"
    and i: "ids = [i]" "docs' = [doc']"
    by (auto simp: save_single split: prod.splits sum.splits)
  from save_doc_history[OF s] i show ?thesis by blast
qed

lemma second_save_single:
  "save env0 (Single doc_trial2) world1 =
     (Inr [ObjectId 2], [fst (snd second_save)], snd (snd second_save))"
  using second_save_eq by (simp add: save_single second_save_def)

theorem save_deletes_orphans_before_upsert_witness:
  "save env0 (Single doc_trial2) world1 =
     (Inr [ObjectId 2], [fst (snd second_save)], snd (snd second_save))
   \<and> previous_refs env0 doc_trial2 = [ObjectId 1]
   \<and> (\<exists>i doc' puts orphans reclaimed new_refs.
         [ObjectId 2] = [i] \<and> [fst (snd second_save)] = [doc']
         \<and> history (snd (snd second_save)) =
             history world1 @ map FsPut puts @ map FsDelete orphans @ [CollectionSave i]
         \<and> mset (previous_refs env0 doc_trial2) = mset orphans + mset reclaimed
         \<and> dict_get doc' ''_npObjectIDs'' = Some (PyList new_refs)
         \<and> mset new_refs = mset reclaimed + mset (map ObjectId puts)
         \<and> (\<forall>x\<in>set orphans. fs_get (snd (snd second_save)) x = None))"
proof -
  have "previous_refs env0 doc_trial2 = [ObjectId 1]"
    by (simp add: previous_refs_def doc_trial2_eq dict_get_def)
  with save_deletes_orphans_before_upsert[OF second_save_single] second_save_single
  show ?thesis by simp
qed

text \<open>
  C1 as stated fails: saving the document again with other data deletes the old file
  \<open>ObjectId 1\<close> before the call of \<open>collection.save\<close>.
\<close>

theorem orphan_deleted_before_upsert:
  "history (snd (snd (save env0 (Single doc_trial2) world1))) =
     history world1 @ [FsPut 3, FsDelete (ObjectId 1), CollectionSave (ObjectId 2)]
   \<and> \<not> no_delete_before_upsert [FsPut 3, FsDelete (ObjectId 1), CollectionSave (ObjectId 2)]"
  unfolding second_save_single by (simp add: second_save_eq world1_eq)

section \<open>What \<open>save\<close> writes into the caller's document\<close>

lemma save_doc_user_fields:
  assumes "save_doc e doc w = (r, doc', w')"
  shows "user_fields doc' = user_fields doc"
  using assms
  by (auto simp: save_doc_def deepcopy_def Let_def user_fields_dict_set reserved_def
      split: prod.splits sum.splits option.splits)

lemma save_doc_merged:
  assumes "save_doc e doc w = (Inr i, doc', w')"
  shows "dict_get doc' ''_id'' = Some i
       \<and> dict_get doc' ''_npObjectIDs'' = Some (PyList (temp_newNpObjectIds w'))
       \<and> (\<exists>t. dict_get doc' ''insertion_date'' = Some (DateTime t))"
  using assms
  by (auto simp: save_doc_def deepcopy_def Let_def dict_get_dict_set now_def collection_save_def
      split: prod.splits sum.splits option.splits)

lemma save_loop_user_fields:
  "save_loop e docs acc w = (r, docs', w') \<Longrightarrow>
   list_all2 (\<lambda>d' d. user_fields d' = user_fields d) docs' docs"
proof (induction docs arbitrary: acc w r docs' w')
  case Nil
  then show ?case by simp
next
  case (Cons doc docs)
  obtain r1 d1 w1 where s1: "save_doc e doc w = (r1, d1, w1)" by (cases "save_doc e doc w")
  note u1 = save_doc_user_fields[OF s1]
  show ?case
  proof (cases r1)
    case (Inl x)
    with Cons.prems s1 have "docs' = d1 # docs" by simp
    with u1 show ?thesis by (simp add: list_all2_same)
  next
    case (Inr i)
    obtain r2 ds2 w2 where s2: "save_loop e docs (acc @ [i]) w1 = (r2, ds2, w2)"
      by (cases "save_loop e docs (acc @ [i]) w1")
    with Cons.prems s1 Inr have "docs' = d1 # ds2" by simp
    with u1 Cons.IH[OF s2] show ?thesis by simp
  qed
qed

lemma save_loop_merged:
  "save_loop e docs acc w = (Inr ids, docs', w') \<Longrightarrow>
   \<exists>new. ids = acc @ new \<and>
     list_all2 (\<lambda>d' i. dict_get d' ''_id'' = Some i
                 \<and> (\<exists>refs. dict_get d' ''_npObjectIDs'' = Some (PyList refs))
                 \<and> (\<exists>t. dict_get d' ''insertion_date'' = Some (DateTime t))) docs' new"
proof (induction docs arbitrary: acc w ids docs' w')
  case Nil
  then show ?case by simp
next
  case (Cons doc docs)
  obtain r1 d1 w1 where s1: "save_doc e doc w = (r1, d1, w1)" by (cases "save_doc e doc w")
  from Cons.prems s1 obtain i where r1: "r1 = Inr i" by (cases r1) auto
  obtain r2 ds2 w2 where s2: "save_loop e docs (acc @ [i]) w1 = (r2, ds2, w2)"
    by (cases "save_loop e docs (acc @ [i]) w1")
  with Cons.prems s1 r1 have eq: "docs' = d1 # ds2" "r2 = Inr ids" by simp_all
  from Cons.IH[OF s2[unfolded eq(2)]] obtain new where
    new: "ids = (acc @ [i]) @ new"
      "list_all2 (\<lambda>d' i. dict_get d' ''_id'' = Some i
                 \<and> (\<exists>refs. dict_get d' ''_npObjectIDs'' = Some (PyList refs))
                 \<and> (\<exists>t. dict_get d' ''insertion_date'' = Some (DateTime t))) ds2 new"
    by blast
  from save_doc_merged[OF s1[unfolded r1]] new eq(1)
  have "ids = acc @ (i # new) \<and>
     list_all2 (\<lambda>d' i. dict_get d' ''_id'' = Some i
                 \<and> (\<exists>refs. dict_get d' ''_npObjectIDs'' = Some (PyList refs))
                 \<and> (\<exists>t. dict_get d' ''insertion_date'' = Some (DateTime t))) docs' (i # new)"
    by simp
  then show ?case by blast
qed

text \<open>
  C4, as the code has it: \<open>save\<close> writes into the caller's document under three keys,
  \<open>_npObjectIDs\<close>, \<open>insertion_date\<close> and \<open>_id\<close>, and under no other: the entries of
  every other key are after the call what they were before it, in the same order,
  whether the call returns or raises. When the call returns, each document holds its
  new \<open>_id\<close>, a reference list and an insertion date.
\<close>

theorem save_writes_three_keys:
  assumes "save e arg w = (r, docs', w')"
  shows "list_all2 (\<lambda>d' d. user_fields d' = user_fields d) docs'
           (case arg of Single d \<Rightarrow> [d] | Several ds \<Rightarrow> ds)
       \<and> (\<forall>ids. r = Inr ids \<longrightarrow>
            list_all2 (\<lambda>d' i. dict_get d' ''_id'' = Some i
                 \<and> (\<exists>refs. dict_get d' ''_npObjectIDs'' = Some (PyList refs))
                 \<and> (\<exists>t. dict_get d' ''insertion_date'' = Some (DateTime t))) docs' ids)"
proof -
  let ?docs = "case arg of Single d \<Rightarrow> [d] | Several ds \<Rightarrow> ds"
  from assms have s: "save_loop e ?docs [] w = (r, docs', w')" by (simp add: save_def)
  have "list_all2 (\<lambda>d' d. user_fields d' = user_fields d) docs' ?docs"
    by (rule save_loop_user_fields[OF s])
  moreover have "\<forall>ids. r = Inr ids \<longrightarrow>
            list_all2 (\<lambda>d' i. dict_get d' ''_id'' = Some i
                 \<and> (\<exists>refs. dict_get d' ''_npObjectIDs'' = Some (PyList refs))
                 \<and> (\<exists>t. dict_get d' ''insertion_date'' = Some (DateTime t))) docs' ids"
  proof (intro allI impI)
    fix ids assume "r = Inr ids"
    with s have "save_loop e ?docs [] w = (Inr ids, docs', w')" by simp
    from save_loop_merged[OF this]
    show "list_all2 (\<lambda>d' i. dict_get d' ''_id'' = Some i
                 \<and> (\<exists>refs. dict_get d' ''_npObjectIDs'' = Some (PyList refs))
                 \<and> (\<exists>t. dict_get d' ''insertion_date'' = Some (DateTime t))) docs' ids"
      by simp
  qed
  ultimately show ?thesis by blast
qed

lemma first_save_single:
  "save env0 (Single doc_trial1) world0 = (Inr [ObjectId 2], [fst (snd first_save)], world1)"
  using first_save_eq by (simp add: save_single first_save_def world1_def)

theorem save_writes_three_keys_witness:
  "save env0 (Single doc_trial1) world0 = (Inr [ObjectId 2], [fst (snd first_save)], world1)
   \<and> user_fields (fst (snd first_save)) = user_fields doc_trial1
   \<and> dict_get (fst (snd first_save)) ''_id'' = Some (ObjectId 2)
   \<and> dict_get (fst (snd first_save)) ''_npObjectIDs'' = Some (PyList [ObjectId 1])
   \<and> user_fields doc_trial1 = doc_trial1"
  using save_writes_three_keys[OF first_save_single] first_save_single
  by (simp add: first_save_eq dict_get_def user_fields_def reserved_def doc_trial1_def)

text \<open>
  C4 as stated fails: the caller's document had no \<open>insertion_date\<close> and has one after
  the save, a key that is neither the identity nor the reference list.
\<close>

theorem save_adds_insertion_date:
  "dict_get doc_trial1 ''insertion_date'' = None
   \<and> map (\<lambda>d. dict_get d ''insertion_date'') (fst (snd (save env0 (Single doc_trial1) world0)))
       = [Some (DateTime 101)]"
  unfolding first_save_single by (simp add: first_save_eq dict_get_def doc_trial1_def)

section \<open>The shape of what \<open>load\<close> returns\<close>

lemma load_each_Inr:
  "load_each e w ds = Inr ds' \<Longrightarrow> list_all2 (\<lambda>d d'. loadNPArrays e w d = Inr d') ds ds'"
proof (induction ds arbitrary: ds')
  case Nil
  then show ?case by simp
next
  case (Cons d ds)
  from Cons.prems obtain d1 ds1 where
    "loadNPArrays e w d = Inr d1" "load_each e w ds = Inr ds1" "ds' = d1 # ds1"
    by (auto split: sum.splits)
  with Cons.IH[of ds1] show ?case by simp
qed

text \<open>
  C5: \<open>load\<close> returns \<open>None\<close> when the query matches no document, and does not raise
  then; it returns the one document when it matches exactly one, and the list of all of
  them when it matches more. With \<open>getarrays\<close> every match goes through
  \<open>_loadNPArrays\<close> first, and what is returned is the expanded match (an exception of
  that pass is the only way \<open>load\<close> raises).
\<close>

theorem load_return_shape:
  "(collection_find e query w = [] \<longrightarrow> load e query getarrays w = Inr NoDocument)
   \<and> (\<forall>d. collection_find e query w = [d] \<longrightarrow>
          load e query False w = Inr (OneDocument d)
          \<and> load e query True w =
              (case loadNPArrays e w d of Inl x \<Rightarrow> Inl x | Inr d' \<Rightarrow> Inr (OneDocument d')))
   \<and> (length (collection_find e query w) > 1 \<longrightarrow>
          load e query False w = Inr (Documents (collection_find e query w))
          \<and> (\<forall>r. load e query True w = Inr r \<longrightarrow>
                (\<exists>ds'. r = Documents ds'
                   \<and> list_all2 (\<lambda>d d'. loadNPArrays e w d = Inr d')
                        (collection_find e query w) ds')))"
proof (intro conjI allI impI)
  assume "collection_find e query w = []"
  then show "load e query getarrays w = Inr NoDocument"
    by (simp add: load_def)
next
  fix d assume "collection_find e query w = [d]"
  then show "load e query False w = Inr (OneDocument d)"
    by (simp add: load_def)
next
  fix d assume "collection_find e query w = [d]"
  then show "load e query True w =
      (case loadNPArrays e w d of Inl x \<Rightarrow> Inl x | Inr d' \<Rightarrow> Inr (OneDocument d'))"
    by (simp add: load_def split: sum.splits)
next
  assume "1 < length (collection_find e query w)"
  then show "load e query False w = Inr (Documents (collection_find e query w))"
    by (auto simp: load_def Let_def)
next
  fix r
  assume len: "1 < length (collection_find e query w)" and r: "load e query True w = Inr r"
  from r obtain ds' where ds': "load_each e w (collection_find e query w) = Inr ds'"
    by (auto simp: load_def Let_def split: sum.splits)
  then have all: "list_all2 (\<lambda>d d'. loadNPArrays e w d = Inr d') (collection_find e query w) ds'"
    by (simp add: load_each_Inr)
  then have "length ds' = length (collection_find e query w)"
    by (simp add: list_all2_lengthD)
  with len r ds' have "r = Documents ds'"
    by (auto simp: load_def Let_def)
  with all show "\<exists>ds'. r = Documents ds'
      \<and> list_all2 (\<lambda>d d'. loadNPArrays e w d = Inr d') (collection_find e query w) ds'"
    by blast
qed

lemma find_none: "collection_find env0 (PyDict [(''name'', PyStr ''nobody'')]) world2 = []"
  by (simp add: collection_find_def world2_eq env0_def dict_get_def)

lemma find_one:
  "collection_find env0 (PyDict [(''name'', PyStr ''trial2'')]) world2 =
     [[(''name'', PyStr ''trial2''), (''n'', PyInt 7), (''_npObjectIDs'', PyList []),
       (''insertion_date'', DateTime 102), (''_id'', ObjectId 3)]]"
  by (simp add: collection_find_def world2_eq env0_def dict_get_def)

lemma find_all: "collection_find env0 (PyDict []) world2 = collection world2"
  by (simp add: collection_find_def world2_eq env0_def dict_get_def)

theorem load_return_shape_witness:
  "load env0 (PyDict [(''name'', PyStr ''nobody'')]) True world2 = Inr NoDocument
   \<and> load env0 (PyDict [(''name'', PyStr ''trial2'')]) False world2 =
       Inr (OneDocument [(''name'', PyStr ''trial2''), (''n'', PyInt 7),
         (''_npObjectIDs'', PyList []), (''insertion_date'', DateTime 102),
         (''_id'', ObjectId 3)])
   \<and> load env0 (PyDict []) False world2 = Inr (Documents (collection world2))
   \<and> length (collection world2) = 2"
  using load_return_shape[of env0 "PyDict [(''name'', PyStr ''nobody'')]" world2 True]
    load_return_shape[of env0 "PyDict [(''name'', PyStr ''trial2'')]" world2 False]
    load_return_shape[of env0 "PyDict []" world2 False]
  by (simp add: find_none find_one find_all) (simp add: world2_eq)

section \<open>\<open>delete\<close> of an identity that no document has\<close>

text \<open>
  C6, as the code has it: when no document has the identity, \<open>find_one\<close> returns \<open>None\<close>
  and the subscript of it raises \<open>TypeError\<close>; nothing has been deleted from GridFS or
  from the collection, and no call that changes a store has been made.
\<close>

theorem delete_absent_raises_TypeError:
  assumes "collection_find_one e (PyDict [(''_id'', objectId)]) w = None"
  shows "delete e objectId w = (Inl TypeError, w)"
  using assms by (simp add: delete_def)

lemma find_one_absent:
  "collection_find_one env0 (PyDict [(''_id'', ObjectId 9)]) world1 = None"
  by (simp add: collection_find_one_def collection_find_def world1_eq env0_def dict_get_def)

theorem delete_absent_raises_TypeError_witness:
  "collection_find_one env0 (PyDict [(''_id'', ObjectId 9)]) world1 = None
   \<and> delete env0 (ObjectId 9) world1 = (Inl TypeError, world1)"
  using delete_absent_raises_TypeError[OF find_one_absent] find_one_absent by simp

text \<open>
  C6 as stated fails: the exception of \<open>delete\<close> on an identity that is not in the
  collection is not \<open>NotFoundError\<close>.
\<close>

theorem delete_absent_not_NotFoundError:
  "fst (delete env0 (ObjectId 9) world1) = Inl TypeError
   \<and> fst (delete env0 (ObjectId 9) world1) \<noteq> Inl NotFoundError"
  by (simp add: delete_def find_one_absent)

section \<open>Several old references with the hash of one array\<close>

text \<open>
  C2 at a failing input. The document was saved with the same array under \<open>x\<close>, \<open>y\<close>
  and \<open>z\<close> and holds the references \<open>[1, 2, 3]\<close>, three files of equal content. When
  the next save resolves the array under \<open>x\<close>, the loop over the old references
  matches file 1, removes it from the list it is walking, thereby steps over file 2,
  and matches file 3 as well: two old files are taken for one array, both are appended
  to the new reference list, and the leaf holds the last of them, not the first.
\<close>

theorem resolve_array_takes_two_old_files:
  "temp_oldNpObjectIDs world3 = PyList [ObjectId 1, ObjectId 2, ObjectId 3]
   \<and> map (\<lambda>x. map_option (md5_hex env0) (fs_get world3 x)) [ObjectId 1, ObjectId 2, ObjectId 3]
       = replicate 3 (Some (md5_hex env0 (npArray2Binary env0 arr1)))
   \<and> (case resolve_array env0 ''x'' arr1 (fst (snd three_saved)) world3 of
         (r, w') \<Rightarrow>
           map_sum id (\<lambda>d. dict_get d ''x'') r = Inr (Some (ObjectId 3))
           \<and> temp_newNpObjectIds w' = [ObjectId 1, ObjectId 3]
           \<and> temp_oldNpObjectIDs w' = PyList [ObjectId 2])"
  by (simp add: world3_def three_saved_eq arr1_def env0_def run_defs numeral_3_eq_3)

section \<open>Saving an unchanged document again\<close>

text \<open>
  C3 at a failing input. A new document with the same array under three keys is saved:
  its reference list is \<open>[1, 2, 3]\<close> and GridFS holds three files. The caller's document
  is saved again as the first save left it: the first array takes the files 1 and 3,
  the second takes file 2, and the third, with no old reference left, is stored as the
  new file 5. The reference list is now \<open>[1, 3, 2, 5]\<close> and GridFS holds four files.
\<close>

theorem resave_unchanged_changes_reference_list:
  "dict_get (fst (snd three_saved)) ''_npObjectIDs''
     = Some (PyList [ObjectId 1, ObjectId 2, ObjectId 3])
   \<and> map (\<lambda>n. fs_files (snd (snd three_saved)) n \<noteq> None) [1, 2, 3, 4, 5]
       = [True, True, True, False, False]
   \<and> user_fields (fst (snd three_resaved)) = user_fields (fst (snd three_saved))
   \<and> dict_get (fst (snd three_resaved)) ''_npObjectIDs''
       = Some (PyList [ObjectId 1, ObjectId 3, ObjectId 2, ObjectId 5])
   \<and> map (\<lambda>n. fs_files (snd (snd three_resaved)) n \<noteq> None) [1, 2, 3, 4, 5]
       = [True, True, True, False, True]"
  by (simp add: three_saved_eq three_resaved_eq dict_get_def user_fields_def reserved_def)

section \<open>New documents: every array becomes a new file\<close>





lemma put_arrays_old [simp]: "temp_oldNpObjectIDs (put_arrays e as w) = temp_oldNpObjectIDs w"
  by (induction as arbitrary: w) simp_all


lemma put_arrays_frame [simp]:
  "collection (put_arrays e as w) = collection w"
  "clock (put_arrays e as w) = clock w"
  "ticks (put_arrays e as w) = ticks w"
  by (induction as arbitrary: w) simp_all

lemma put_arrays_next_oid [simp]: "next_oid (put_arrays e as w) = next_oid w + length as"
  by (induction as arbitrary: w) simp_all








section \<open>The round trip of save and load\<close>












































section \<open>Lists are not entered\<close>
















end
